theory Spec2Isabelle
  imports Complex_Main
begin

section \<open>Data model of update-multi-stock.py\<close>

text \<open>
  The script keeps two pandas tables: the share prices (one column per instrument) and the
  currency rates (one column per currency code, units of the currency per 1 EUR). Both carry
  a \<open>Date\<close> column.

  \<^item> A calendar date is the integer \<open>datetime.date.toordinal()\<close> returns (day 1 is Monday
    0001-01-01), so \<open>timedelta(days=n)\<close> is the addition of \<open>n\<close>.
  \<^item> \<open>pd.to_datetime(..., format='%d-%m-%Y', errors='coerce')\<close> is not re-implemented: a
    \<open>Date\<close> cell is held in its parsed form, \<open>None\<close> being \<open>NaT\<close> (a text that does not parse).
  \<^item> A float is idealised as an exact rational; \<open>None\<close> is \<open>NaN\<close>, which is also what pandas
    reads from a column that a row does not have.
\<close>

type_synonym date = int

datatype py_error = ZeroDivisionError | ValueError

record row =
  Date :: "date option"
  cells :: "string \<Rightarrow> rat option"

record dataframe =
  columns :: "string list"
  rows :: "row list"

text \<open>\<open>df.empty\<close>: the table has no row (the \<open>Date\<close> column is always there).\<close>

definition empty_df :: "dataframe \<Rightarrow> bool" where
  "empty_df df = (rows df = [])"

text \<open>Comparing timestamps: every comparison with \<open>NaT\<close> is false.\<close>

fun date_le :: "date option \<Rightarrow> date option \<Rightarrow> bool" where
  "date_le (Some a) (Some b) = (a \<le> b)"
| "date_le _ _ = False"

text \<open>
  Python's \<open>round(x, n)\<close> and pandas' \<open>Series.round(n)\<close> on the idealised value: to the
  nearest multiple of \<open>10 ^ -n\<close>, a tie going to the even one.
\<close>

definition round_half_even :: "rat \<Rightarrow> int" where
  "round_half_even x =
     (let f = \<lfloor>x\<rfloor>; d = x - of_int f
      in if d < 1 / 2 then f
         else if 1 / 2 < d then f + 1
         else if even f then f else f + 1)"

definition py_round :: "rat \<Rightarrow> nat \<Rightarrow> rat" where
  "py_round x n = of_int (round_half_even (x * 10 ^ n)) / 10 ^ n"

text \<open>\<open>round(float(x), n)\<close> of a value that may be \<open>NaN\<close>: \<open>round(nan, n)\<close> is \<open>nan\<close>.\<close>

definition py_round_nan :: "rat option \<Rightarrow> nat \<Rightarrow> rat option" where
  "py_round_nan x n = (case x of None \<Rightarrow> None | Some v \<Rightarrow> Some (py_round v n))"

section \<open>Currency conversion engine\<close>

text \<open>
  \<open>get_usd_to_eur_rate\<close>, lines 73-99. \<open>available_dates\<close> is the filter of line 87;
  \<open>most_recent_row\<close> is \<open>df.loc[df['Date'].idxmax()]\<close> of line 93: the first row that
  carries the greatest date (\<open>idxmax\<close> skips \<open>NaT\<close> and returns the first position of the
  maximum; the index labels of the table are distinct).
\<close>

definition available_dates :: "row list \<Rightarrow> date option \<Rightarrow> row list" where
  "available_dates rs target_date = filter (\<lambda>r. date_le (Date r) target_date) rs"

definition valid_dates :: "row list \<Rightarrow> date list" where
  "valid_dates rs = concat (map (\<lambda>r. case Date r of None \<Rightarrow> [] | Some d \<Rightarrow> [d]) rs)"

definition most_recent_row :: "row list \<Rightarrow> row option" where
  "most_recent_row rs =
     (case valid_dates rs of
        [] \<Rightarrow> None
      | d # ds \<Rightarrow> find (\<lambda>r. Date r = Some (Max (set (d # ds)))) rs)"

text \<open>\<open>1.0 / float(x)\<close>: Python raises on a zero divisor.\<close>

definition py_truediv :: "rat \<Rightarrow> rat \<Rightarrow> py_error + rat" where
  "py_truediv a b = (if b = 0 then Inl ZeroDivisionError else Inr (a / b))"

definition get_usd_to_eur_rate :: "dataframe \<Rightarrow> date option \<Rightarrow> py_error + rat option" where
  "get_usd_to_eur_rate currency_df target_date =
     (if empty_df currency_df then Inr None
      else
        let available = available_dates (rows currency_df) target_date in
        if available = [] then Inr None
        else
          (case most_recent_row available of
             None \<Rightarrow> Inr None
           | Some most_recent \<Rightarrow>
               (if ''USD'' \<in> set (columns currency_df) then
                  (case cells most_recent ''USD'' of
                     None \<Rightarrow> Inr None
                   | Some usd \<Rightarrow>
                       (case py_truediv 1 usd of
                          Inl e \<Rightarrow> Inl e
                        | Inr rate \<Rightarrow> Inr (Some rate)))
                else Inr None)))"

text \<open>
  \<open>convert_usd_to_eur\<close>, lines 101-109. The price is \<open>None\<close> when \<open>pd.isna\<close> holds of it;
  the rate is \<open>None\<close> when the lookup found none.
\<close>

definition convert_usd_to_eur :: "rat option \<Rightarrow> rat option \<Rightarrow> rat option" where
  "convert_usd_to_eur usd_price exchange_rate =
     (case exchange_rate of
        None \<Rightarrow> usd_price
      | Some rate \<Rightarrow>
          (case usd_price of
             None \<Rightarrow> usd_price
           | Some price \<Rightarrow> Some (py_round (price * rate) 2)))"

text \<open>
  The spec's wording of the as-of selection, to state the lookup against: \<open>r\<close> is the
  row of \<open>rs\<close> with the greatest date among the dates at or before \<open>t\<close>, and the first
  such row when several rows carry that date.
\<close>

definition as_of_row :: "row list \<Rightarrow> date \<Rightarrow> row \<Rightarrow> bool" where
  "as_of_row rs t r =
     (\<exists>pre post d. rs = pre @ r # post \<and> Date r = Some d \<and> d \<le> t \<and>
        (\<forall>p\<in>set pre. \<forall>e. Date p = Some e \<longrightarrow> e \<le> t \<longrightarrow> e < d) \<and>
        (\<forall>p\<in>set post. \<forall>e. Date p = Some e \<longrightarrow> e \<le> t \<longrightarrow> e \<le> d))"

text \<open>
  Example tables. \<open>jan_rates\<close> has rates on 1, 3 and 5 January 2024 (ordinals 738886, 738888,
  738890; 31 December 2023 is 738885 and 4 January 2024 is 738889). In \<open>usd_gap_rates\<close>
  the later row has no USD value.
\<close>

definition jan_rates :: dataframe where
  "jan_rates =
     \<lparr>columns = [''USD''],
      rows = [\<lparr>Date = Some 738886, cells = (\<lambda>c. None)(''USD'' := Some (11 / 10))\<rparr>,
              \<lparr>Date = Some 738888, cells = (\<lambda>c. None)(''USD'' := Some (5 / 4))\<rparr>,
              \<lparr>Date = Some 738890, cells = (\<lambda>c. None)(''USD'' := Some (13 / 10))\<rparr>]\<rparr>"

definition usd_gap_rates :: dataframe where
  "usd_gap_rates =
     \<lparr>columns = [''USD'', ''GBP''],
      rows = [\<lparr>Date = Some 738886, cells = (\<lambda>c. None)(''USD'' := Some (11 / 10))\<rparr>,
              \<lparr>Date = Some 738888, cells = (\<lambda>c. None)(''GBP'' := Some (17 / 20))\<rparr>]\<rparr>"

section \<open>Converting the newly fetched records\<close>

text \<open>
  The conversion of the newly fetched records in \<open>main\<close>, lines 1109-1129. A new record
  is the dict built at lines 966-982: its \<open>Date\<close> and one price per instrument that the
  provider returned on that date. \<open>prices r s = None\<close>: the dict has no key \<open>s\<close>;
  \<open>Some None\<close>: the key holds \<open>NaN\<close>. \<open>USD_STOCKS\<close> is a Python set; the loop visits it in
  some order, given here as a list.
\<close>

record new_record =
  record_date :: date
  prices :: "string \<Rightarrow> rat option option"

record conversion_stats =
  converted :: nat
  skipped_no_rate :: nat
  skipped_missing_price :: nat

definition convert_stock ::
  "rat option \<Rightarrow> new_record \<times> conversion_stats \<Rightarrow> string \<Rightarrow> new_record \<times> conversion_stats" where
  "convert_stock usd_eur_rate acc stock_name =
     (case acc of (new_record, stats) \<Rightarrow>
        (case prices new_record stock_name of
           Some (Some price) \<Rightarrow>
             (case usd_eur_rate of
                Some rate \<Rightarrow>
                  (new_record\<lparr>prices := (prices new_record)
                       (stock_name := Some (convert_usd_to_eur (Some price) (Some rate)))\<rparr>,
                   stats\<lparr>converted := converted stats + 1\<rparr>)
              | None \<Rightarrow> (new_record, stats\<lparr>skipped_no_rate := skipped_no_rate stats + 1\<rparr>))
         | Some None \<Rightarrow>
             (new_record, stats\<lparr>skipped_missing_price := skipped_missing_price stats + 1\<rparr>)
         | None \<Rightarrow> (new_record, stats)))"

definition convert_record ::
  "dataframe \<Rightarrow> string list \<Rightarrow> new_record \<Rightarrow> conversion_stats \<Rightarrow>
     py_error + new_record \<times> conversion_stats" where
  "convert_record currency_df USD_STOCKS new_record stats =
     (case get_usd_to_eur_rate currency_df (Some (record_date new_record)) of
        Inl e \<Rightarrow> Inl e
      | Inr usd_eur_rate \<Rightarrow> Inr (foldl (convert_stock usd_eur_rate) (new_record, stats) USD_STOCKS))"

fun convert_new_records ::
  "dataframe \<Rightarrow> string list \<Rightarrow> new_record list \<Rightarrow> conversion_stats \<Rightarrow>
     py_error + new_record list \<times> conversion_stats" where
  "convert_new_records currency_df USD_STOCKS [] stats = Inr ([], stats)"
| "convert_new_records currency_df USD_STOCKS (new_record # rest) stats =
     (case convert_record currency_df USD_STOCKS new_record stats of
        Inl e \<Rightarrow> Inl e
      | Inr (new_record', stats') \<Rightarrow>
          (case convert_new_records currency_df USD_STOCKS rest stats' of
             Inl e \<Rightarrow> Inl e
           | Inr (rest', stats'') \<Rightarrow> Inr (new_record' # rest', stats'')))"

text \<open>
  A record has a price for an instrument: the key is there and \<open>pd.notna\<close> holds.
\<close>

definition priced :: "new_record \<Rightarrow> string \<Rightarrow> bool" where
  "priced new_record stock_name = (\<exists>price. prices new_record stock_name = Some (Some price))"

definition ibm_record :: new_record where
  "ibm_record = \<lparr>record_date = 738883, prices = (\<lambda>s. None)(''IBM Share'' := Some (Some 100))\<rparr>"

section \<open>Merging by date\<close>

text \<open>
  The merge of \<open>main\<close>, lines 1083-1084 and 1094-1095:
  \<open>pd.concat([existing, new], ignore_index=True)\<close> followed by
  \<open>drop_duplicates(subset=["Date"], keep="last")\<close>. The concatenation appends the rows and
  takes the union of the columns (a cell of a column that a row did not have reads as
  \<open>NaN\<close>, which is what \<open>cells\<close> gives). \<open>drop_duplicates\<close> keeps a row when no later row
  has the same \<open>Date\<close>, in the original order; pandas counts two missing dates as equal.
  At this point both tables hold their dates as the texts \<open>strftime('%d-%m-%Y')\<close> wrote
  (lines 1081 and 1090, and the new records of lines 968 and 1006), so equal texts are equal
  dates.
\<close>

definition concat_df :: "dataframe \<Rightarrow> dataframe \<Rightarrow> dataframe" where
  "concat_df a b =
     \<lparr>columns = columns a @ filter (\<lambda>c. c \<notin> set (columns a)) (columns b),
      rows = rows a @ rows b\<rparr>"

fun drop_duplicates_last :: "row list \<Rightarrow> row list" where
  "drop_duplicates_last [] = []"
| "drop_duplicates_last (r # rs) =
     (if Date r \<in> set (map Date rs) then drop_duplicates_last rs
      else r # drop_duplicates_last rs)"

definition drop_duplicates :: "dataframe \<Rightarrow> dataframe" where
  "drop_duplicates df = df\<lparr>rows := drop_duplicates_last (rows df)\<rparr>"

definition merge_by_date :: "dataframe \<Rightarrow> dataframe \<Rightarrow> dataframe" where
  "merge_by_date existing incoming = drop_duplicates (concat_df existing incoming)"

text \<open>
  The records of a table that carry the date key \<open>k\<close>, in order.
\<close>

definition with_date :: "date option \<Rightarrow> row list \<Rightarrow> row list" where
  "with_date k rs = filter (\<lambda>r. Date r = k) rs"

definition price_row :: "date \<Rightarrow> string \<Rightarrow> rat \<Rightarrow> row" where
  "price_row d c v = \<lparr>Date = Some d, cells = (\<lambda>x. None)(c := Some v)\<rparr>"

section \<open>Gap filling of the share prices\<close>

text \<open>
  \<open>fill_missing_stock_data\<close>, lines 509-611. What \<open>yf.download\<close> returns is a list of
  (date, Close) pairs whose dates are distinct (the frame's index), empty when the provider
  has nothing; a Close may be \<open>NaN\<close> (\<open>None\<close>), and the code does not test it.
  \<open>yf_download\<close> gives \<open>None\<close> when the call raises. \<open>STOCKS\<close> and \<open>USD_STOCKS\<close>, globals
  of the script, are parameters.
\<close>

type_synonym quotes = "(date \<times> rat option) list"

text \<open>
  Lines 571-574: the provider dates at or before the target, and the Close at the greatest
  of them; \<open>None\<close> when there is none (line 580).
\<close>

definition most_recent_quote :: "quotes \<Rightarrow> date \<Rightarrow> (date \<times> rat option) option" where
  "most_recent_quote stock_data target =
     (case filter (\<lambda>d. d \<le> target) (map fst stock_data) of
        [] \<Rightarrow> None
      | d # ds \<Rightarrow>
          (let most_recent_date = Max (set (d # ds))
           in map_option (Pair most_recent_date) (map_of stock_data most_recent_date)))"

text \<open>
  The three reports the loop prints per gap (lines 568, 579 and 582): a fill from the exact
  date, a fill from an earlier provider date (which the message names), and no data.
\<close>

datatype fill_event =
    Filled string date "rat option"
  | FilledFrom string date "rat option" date
  | NoData string date

fun event_date :: "fill_event \<Rightarrow> date" where
  "event_date (Filled s d v) = d"
| "event_date (FilledFrom s d v m) = d"
| "event_date (NoData s d) = d"

text \<open>
  The state the loop updates: \<open>fill_stats\<close>, the table's rows, the positions filled (kept
  for the conversion afterwards) and the reports.
\<close>

record fill_stats =
  filled :: nat
  skipped :: nat

record fill_state = fill_stats +
  shares :: "row list"
  filled_positions :: "(nat \<times> string \<times> date \<times> rat option) list"
  messages :: "fill_event list"

text \<open>
  \<open>shares_df.loc[idx, stock_name] = value\<close>.
\<close>

definition set_cell :: "row list \<Rightarrow> nat \<Rightarrow> string \<Rightarrow> rat option \<Rightarrow> row list" where
  "set_cell rs idx c v = rs[idx := (rs ! idx)\<lparr>cells := (cells (rs ! idx))(c := v)\<rparr>]"

text \<open>
  Lines 548-549: the rows whose parsed date is at or after \<open>start_date\<close>, each with its
  index and date, in index order (a comparison with \<open>NaT\<close> is false).
\<close>

fun recent_from :: "nat \<Rightarrow> row list \<Rightarrow> date \<Rightarrow> (nat \<times> date \<times> row) list" where
  "recent_from idx [] start_date = []"
| "recent_from idx (row # rest) start_date =
     (case Date row of
        None \<Rightarrow> recent_from (Suc idx) rest start_date
      | Some d \<Rightarrow>
          (if start_date \<le> d then (idx, d, row) # recent_from (Suc idx) rest start_date
           else recent_from (Suc idx) rest start_date))"

definition recent_records :: "row list \<Rightarrow> date \<Rightarrow> (nat \<times> date \<times> row) list" where
  "recent_records rs start_date = recent_from 0 rs start_date"

text \<open>
  The body of the loop over \<open>recent_records\<close>, lines 553-582. The row is the one of the
  snapshot taken at line 549.
\<close>

definition fill_gap :: "string \<Rightarrow> quotes \<Rightarrow> fill_state \<Rightarrow> nat \<times> date \<times> row \<Rightarrow> fill_state" where
  "fill_gap stock_name stock_data st rec =
     (case rec of (idx, target_date, row) \<Rightarrow>
        (case cells row stock_name of
           Some v \<Rightarrow> st
         | None \<Rightarrow>
             (case map_of stock_data target_date of
                Some close \<Rightarrow>
                  (let close_price = py_round_nan close 2
                   in st\<lparr>filled := filled st + 1,
                         shares := set_cell (shares st) idx stock_name close_price,
                         filled_positions := filled_positions st @
                           [(idx, stock_name, target_date, close_price)],
                         messages := messages st @ [Filled stock_name target_date close_price]\<rparr>)
              | None \<Rightarrow>
                  (case most_recent_quote stock_data target_date of
                     Some (most_recent_date, close) \<Rightarrow>
                       (let close_price = py_round_nan close 2
                        in st\<lparr>filled := filled st + 1,
                              shares := set_cell (shares st) idx stock_name close_price,
                              filled_positions := filled_positions st @
                                [(idx, stock_name, target_date, close_price)],
                              messages := messages st @
                                [FilledFrom stock_name target_date close_price most_recent_date]\<rparr>)
                   | None \<Rightarrow>
                       st\<lparr>skipped := skipped st + 1,
                          messages := messages st @ [NoData stock_name target_date]\<rparr>))))"

text \<open>
  One pass of the loop over \<open>STOCKS\<close>, lines 529-589: an instrument that is no column is
  passed over; a download that raises counts one skip (lines 587-589); an empty result is
  passed over (lines 539-541).
\<close>

definition fill_stock ::
  "(string \<Rightarrow> date \<Rightarrow> date \<Rightarrow> quotes option) \<Rightarrow> string list \<Rightarrow> date \<Rightarrow> date \<Rightarrow>
     fill_state \<Rightarrow> string \<times> string \<Rightarrow> fill_state" where
  "fill_stock yf_download cols start_date last_date st stock =
     (case stock of (stock_name, ticker) \<Rightarrow>
        if stock_name \<notin> set cols then st
        else
          (case yf_download ticker start_date (last_date + 1) of
             None \<Rightarrow> st\<lparr>skipped := skipped st + 1\<rparr>
           | Some stock_data \<Rightarrow>
               if stock_data = [] then st
               else foldl (fill_gap stock_name stock_data) st
                      (recent_records (shares st) start_date)))"

text \<open>
  \<open>shares_df['Date_parsed'].max()\<close>, which skips \<open>NaT\<close>.
\<close>

definition max_date :: "row list \<Rightarrow> date option" where
  "max_date rs = (case valid_dates rs of [] \<Rightarrow> None | d # ds \<Rightarrow> Some (Max (set (d # ds))))"

text \<open>
  Lines 592-602: the prices just filled for a USD instrument are converted with the as-of
  rate of their date, when there is one.
\<close>

fun convert_filled ::
  "dataframe \<Rightarrow> string list \<Rightarrow> (nat \<times> string \<times> date \<times> rat option) list \<Rightarrow> row list \<Rightarrow>
     py_error + row list" where
  "convert_filled currency_df USD_STOCKS [] rs = Inr rs"
| "convert_filled currency_df USD_STOCKS ((idx, stock_name, date_str, original_price) # rest) rs =
     (if stock_name \<in> set USD_STOCKS then
        (case get_usd_to_eur_rate currency_df (Some date_str) of
           Inl e \<Rightarrow> Inl e
         | Inr None \<Rightarrow> convert_filled currency_df USD_STOCKS rest rs
         | Inr (Some usd_eur_rate) \<Rightarrow>
             convert_filled currency_df USD_STOCKS rest
               (set_cell rs idx stock_name
                  (convert_usd_to_eur original_price (Some usd_eur_rate))))
      else convert_filled currency_df USD_STOCKS rest rs)"

text \<open>
  The whole function. With no valid date in the table \<open>last_date\<close> is \<open>NaT\<close> and line 523
  raises on \<open>strftime\<close>.
\<close>

definition fill_missing_stock_data ::
  "(string \<Rightarrow> date \<Rightarrow> date \<Rightarrow> quotes option) \<Rightarrow> (string \<times> string) list \<Rightarrow> string list \<Rightarrow>
     dataframe \<Rightarrow> dataframe \<Rightarrow> int \<Rightarrow> py_error + dataframe \<times> fill_stats" where
  "fill_missing_stock_data yf_download STOCKS USD_STOCKS shares_df currency_df lookback_days =
     (if empty_df shares_df then Inr (shares_df, \<lparr>filled = 0, skipped = 0\<rparr>)
      else
        (case max_date (rows shares_df) of
           None \<Rightarrow> Inl ValueError
         | Some last_date \<Rightarrow>
             (let start_date = last_date - lookback_days;
                  st = foldl (fill_stock yf_download (columns shares_df) start_date last_date)
                         \<lparr>filled = 0, skipped = 0, shares = rows shares_df,
                          filled_positions = [], messages = []\<rparr>
                         STOCKS
              in case convert_filled currency_df USD_STOCKS (filled_positions st) (shares st) of
                   Inl e \<Rightarrow> Inl e
                 | Inr rs \<Rightarrow>
                     Inr (shares_df\<lparr>rows := rs\<rparr>, \<lparr>filled = filled st, skipped = skipped st\<rparr>))))"

text \<open>
  Example tables and provider data. \<open>sparse_prices\<close> has rows on 27 December 2023 (738881)
  and 5 January 2024 (738890); \<open>gap_prices\<close> has a row of 3 January 2024 without a price
  for X.
\<close>

definition sparse_prices :: dataframe where
  "sparse_prices =
     \<lparr>columns = [''X''],
      rows = [\<lparr>Date = Some 738881, cells = (\<lambda>c. None)(''X'' := Some 50)\<rparr>,
              \<lparr>Date = Some 738890, cells = (\<lambda>c. None)(''X'' := Some 51)\<rparr>]\<rparr>"

definition gap_prices :: dataframe where
  "gap_prices =
     \<lparr>columns = [''X''],
      rows = [\<lparr>Date = Some 738888, cells = (\<lambda>c. None)\<rparr>,
              \<lparr>Date = Some 738890, cells = (\<lambda>c. None)(''X'' := Some 51)\<rparr>]\<rparr>"

definition x_quotes :: quotes where
  "x_quotes = [(738886, Some (1234 / 1000)), (738889, Some 2)]"


definition is_gap :: "string \<Rightarrow> nat \<times> date \<times> row \<Rightarrow> bool" where
  "is_gap stock_name rec = (case rec of (idx, d, row) \<Rightarrow> cells row stock_name = None)"

definition has_prior :: "quotes \<Rightarrow> nat \<times> date \<times> row \<Rightarrow> bool" where
  "has_prior stock_data rec = (case rec of (idx, d, row) \<Rightarrow> \<exists>e\<in>fst ` set stock_data. e \<le> d)"







definition initial_state :: "dataframe \<Rightarrow> fill_state" where
  "initial_state shares_df =
     \<lparr>filled = 0, skipped = 0, shares = rows shares_df, filled_positions = [], messages = []\<rparr>"

section \<open>Gap filling of the currency rates\<close>

text \<open>
  \<open>fill_missing_currency_data\<close>, lines 613-734, and \<open>get_yfinance_ticker\<close>, lines 66-71.
  \<open>weekday\<close> is \<open>date.weekday()\<close>: Monday is 0. \<open>today_date\<close>, the clock's date, is a
  parameter.
\<close>

definition get_yfinance_ticker :: "string \<Rightarrow> string" where
  "get_yfinance_ticker currency_code = ''EUR'' @ currency_code @ ''=X''"

definition weekday :: "date \<Rightarrow> int" where
  "weekday d = (d - 1) mod 7"

text \<open>
  Lines 634-657: the weekdays from \<open>start_date\<close> to \<open>last_date\<close> that no row carries, then
  every weekday after \<open>last_date\<close> up to today. Each \<open>while\<close> loop counts one day at a time
  through its range.
\<close>

definition missing_dates :: "row list \<Rightarrow> date \<Rightarrow> date \<Rightarrow> date \<Rightarrow> date list" where
  "missing_dates rs start_date last_date today_date =
     filter (\<lambda>d. weekday d < 5 \<and> Some d \<notin> set (map Date rs)) [start_date..last_date] @
     filter (\<lambda>d. weekday d < 5) [last_date + 1..today_date]"

text \<open>
  Lines 675-691: one download per currency column; a download that raises or returns
  nothing leaves no entry. The cache is a dict, here the list of its items in insertion
  order (the column names of a table are distinct).
\<close>

definition forex_data_cache ::
  "(string \<Rightarrow> date \<Rightarrow> date \<Rightarrow> quotes option) \<Rightarrow> string list \<Rightarrow> date \<Rightarrow> date \<Rightarrow>
     (string \<times> quotes) list" where
  "forex_data_cache yf_download currencies start_date end_date =
     concat (map (\<lambda>currency_code.
        case yf_download (get_yfinance_ticker currency_code) start_date end_date of
          None \<Rightarrow> []
        | Some forex_data \<Rightarrow> if forex_data = [] then [] else [(currency_code, forex_data)])
       currencies)"

text \<open>
  Lines 700-708, the loop over the cache for one missing date: only an observation for
  exactly that date sets the currency's cell and counts, whether its Close is a number or
  \<open>NaN\<close>.
\<close>

definition fill_rate ::
  "date \<Rightarrow> (string \<Rightarrow> rat option) \<times> nat \<Rightarrow> string \<times> quotes \<Rightarrow> (string \<Rightarrow> rat option) \<times> nat" where
  "fill_rate missing_date acc entry =
     (case acc of (new_row, currencies_filled) \<Rightarrow>
        (case entry of (currency_code, forex_data) \<Rightarrow>
           (case map_of forex_data missing_date of
              Some close \<Rightarrow>
                (new_row(currency_code := py_round_nan close 4), currencies_filled + 1)
            | None \<Rightarrow> (new_row, currencies_filled))))"

definition currency_row :: "(string \<times> quotes) list \<Rightarrow> date \<Rightarrow> (string \<Rightarrow> rat option) \<times> nat" where
  "currency_row cache missing_date = foldl (fill_rate missing_date) (\<lambda>c. None, 0) cache"

text \<open>
  Lines 694-718: one missing date. The row is appended only when a currency was filled.
\<close>

record currency_state = fill_stats +
  currency_rows :: "row list"

definition fill_currency_date ::
  "(string \<times> quotes) list \<Rightarrow> currency_state \<Rightarrow> date \<Rightarrow> currency_state" where
  "fill_currency_date cache st missing_date =
     (case currency_row cache missing_date of
        (new_row, currencies_filled) \<Rightarrow>
          if currencies_filled > 0 then
            st\<lparr>filled := filled st + 1,
               currency_rows := currency_rows st @ [\<lparr>Date = Some missing_date, cells = new_row\<rparr>]\<rparr>
          else st\<lparr>skipped := skipped st + 1\<rparr>)"

text \<open>
  Lines 725-731: the \<open>Date\<close> column is parsed again, this time with pandas' format
  inference over the whole column (\<open>to_datetime_inferred\<close>, a parameter), the rows are
  sorted by the result with \<open>NaT\<close> last, and \<open>Date\<close> is rewritten from it. pandas' sort is
  not stable; rows of equal date are kept in order here.
\<close>

definition sort_by_date :: "(date option list \<Rightarrow> date option list) \<Rightarrow> row list \<Rightarrow> row list" where
  "sort_by_date to_datetime_inferred rs =
     (let parsed = map2 (\<lambda>r d. r\<lparr>Date := d\<rparr>) rs (to_datetime_inferred (map Date rs))
      in sort_key (\<lambda>r. case Date r of Some d \<Rightarrow> d | None \<Rightarrow> 0) (filter (\<lambda>r. Date r \<noteq> None) parsed) @
         filter (\<lambda>r. Date r = None) parsed)"

text \<open>
  The whole function. No step of the \<open>try\<close> block raises in this model, so the handler
  of lines 720-722 has no branch.
\<close>

definition fill_missing_currency_data ::
  "(string \<Rightarrow> date \<Rightarrow> date \<Rightarrow> quotes option) \<Rightarrow> (date option list \<Rightarrow> date option list) \<Rightarrow> date \<Rightarrow>
     dataframe \<Rightarrow> int \<Rightarrow> py_error + dataframe \<times> fill_stats" where
  "fill_missing_currency_data yf_download to_datetime_inferred today_date currency_df lookback_days =
     (if empty_df currency_df then Inr (currency_df, \<lparr>filled = 0, skipped = 0\<rparr>)
      else
        (case max_date (rows currency_df) of
           None \<Rightarrow> Inl ValueError
         | Some last_date \<Rightarrow>
             (let start_date = last_date - lookback_days;
                  existing_currencies = columns currency_df;
                  missing = missing_dates (rows currency_df) start_date last_date today_date
              in if missing = [] then Inr (currency_df, \<lparr>filled = 0, skipped = 0\<rparr>)
                 else
                   (let cache = forex_data_cache yf_download existing_currencies
                          (Min (set missing)) (Max (set missing) + 1);
                        st = foldl (fill_currency_date cache)
                          \<lparr>filled = 0, skipped = 0, currency_rows = rows currency_df\<rparr> missing
                    in Inr (currency_df\<lparr>rows := sort_by_date to_datetime_inferred (currency_rows st)\<rparr>,
                            \<lparr>filled = filled st, skipped = skipped st\<rparr>)))))"

text \<open>
  The wording of the specification: a date on which at least one cached currency has an
  observation. \<open>usd_gbp_cache\<close> is an example cache: USD on 3 and 4 January 2024, GBP on
  3 January only.
\<close>

definition resolved_on :: "(string \<times> quotes) list \<Rightarrow> date \<Rightarrow> bool" where
  "resolved_on cache missing_date = (\<exists>entry\<in>set cache. map_of (snd entry) missing_date \<noteq> None)"

definition usd_gbp_cache :: "(string \<times> quotes) list" where
  "usd_gbp_cache =
     [(''USD'', [(738888, Some (10876 / 10000)), (738889, Some (108768 / 100000))]),
      (''GBP'', [(738888, Some (86 / 100))])]"

text \<open>
  A table with one USD rate, of 3 January 2024, and a provider result whose only
  observation, of 4 January 2024, has a Close that is \<open>NaN\<close>.
\<close>

definition one_rate :: dataframe where
  "one_rate =
     \<lparr>columns = [''USD''],
      rows = [\<lparr>Date = Some 738888, cells = (\<lambda>c. None)(''USD'' := Some (109 / 100))\<rparr>]\<rparr>"

definition nan_quotes :: quotes where
  "nan_quotes = [(738889, None)]"

section \<open>Multi-currency projection\<close>

text \<open>
  \<open>generate_company_specific_files\<close>, lines 792-814, for one company and one currency of
  \<open>available_currencies\<close>. A cell read from the workbook is \<open>Numeric x\<close> when
  \<open>pd.to_numeric(..., errors='coerce')\<close> reads the number \<open>x\<close> from it and \<open>NonNumeric\<close> when it
  coerces the cell to \<open>NaN\<close>. Dates are the workbook's texts, compared for equality only. No
  currency column is named EUR (the merge would rename both EUR columns).
\<close>

datatype cell = Numeric rat | NonNumeric

fun to_numeric :: "cell \<Rightarrow> rat option" where
  "to_numeric (Numeric x) = Some x"
| "to_numeric NonNumeric = None"

text \<open>
  \<open>multi_currency_data.merge(currency_ratios, on='Date', how='left')\<close>: every left row, in
  order, once per right row of the same date, and once with empty rates when there is none.
\<close>

definition merge_left ::
  "('k \<times> rat option) list \<Rightarrow> ('k \<times> (string \<Rightarrow> cell)) list \<Rightarrow>
     ('k \<times> rat option \<times> (string \<Rightarrow> cell)) list" where
  "merge_left left right =
     concat (map (\<lambda>(d, eur).
        case filter (\<lambda>(k, rates). k = d) right of
          [] \<Rightarrow> [(d, eur, \<lambda>c. NonNumeric)]
        | m # ms \<Rightarrow> map (\<lambda>(k, rates). (d, eur, rates)) (m # ms)) left)"

text \<open>
  \<open>valid_mask\<close> (lines 806-808) and the converted value (lines 812-813) of one merged row.
\<close>

fun valid :: "rat option \<Rightarrow> rat option \<Rightarrow> bool" where
  "valid (Some eur) (Some rate) = (0 < rate)"
| "valid _ _ = False"

fun converted_value :: "rat option \<Rightarrow> rat option \<Rightarrow> rat option" where
  "converted_value (Some eur) (Some rate) = Some (py_round (eur * rate) 2)"
| "converted_value _ _ = None"

text \<open>
  Lines 792-814. The column starts as \<open>None\<close> (line 810); when some row is valid, the
  rows that the mask selects get their converted value. Mask and values are indexed by the
  rows of \<open>merged_data\<close> and pandas aligns them with \<open>multi_currency_data\<close> by index label,
  so only the first \<open>len(multi_currency_data)\<close> merged rows count (the merge has more rows
  only when the rate table repeats a date).
\<close>

definition project_currency ::
  "('k \<times> cell) list \<Rightarrow> ('k \<times> (string \<Rightarrow> cell)) list \<Rightarrow> string \<Rightarrow> rat option list" where
  "project_currency data_rows currency_ratios currency =
     (let multi_currency_data = map (\<lambda>(d, price). (d, to_numeric price)) data_rows;
          merged_data = merge_left multi_currency_data currency_ratios;
          merged = map (\<lambda>(d, eur, rates). (eur, to_numeric (rates currency))) merged_data;
          valid_mask = map (\<lambda>(eur, rate). valid eur rate) merged
      in if 0 < length (filter id valid_mask) then
           take (length multi_currency_data)
             (map (\<lambda>(eur, rate). if valid eur rate then converted_value eur rate else None) merged)
         else replicate (length multi_currency_data) None)"

text \<open>
  The rate of a currency on a date, as the rate table holds it, and an example: prices on
  four dates, rates on three.
\<close>

definition rate_on :: "('k \<times> (string \<Rightarrow> cell)) list \<Rightarrow> 'k \<Rightarrow> string \<Rightarrow> rat option" where
  "rate_on currency_ratios d currency =
     (case map_of currency_ratios d of
        None \<Rightarrow> None
      | Some rates \<Rightarrow> to_numeric (rates currency))"

definition eur_rows :: "(string \<times> cell) list" where
  "eur_rows = [(''03-01-2024'', Numeric 100), (''04-01-2024'', NonNumeric),
               (''05-01-2024'', Numeric 50), (''08-01-2024'', Numeric 10)]"

definition ratio_rows :: "(string \<times> (string \<Rightarrow> cell)) list" where
  "ratio_rows = [(''03-01-2024'', (\<lambda>c. NonNumeric)(''USD'' := Numeric (5 / 4))),
                 (''04-01-2024'', (\<lambda>c. NonNumeric)(''USD'' := Numeric (5 / 4))),
                 (''05-01-2024'', (\<lambda>c. NonNumeric)(''USD'' := Numeric 0))]"

text \<open>
  A rate table that holds 3 January 2024 twice, and prices on 3 and 4 January.
\<close>

definition two_prices :: "(string \<times> cell) list" where
  "two_prices = [(''03-01-2024'', Numeric 100), (''04-01-2024'', Numeric 10)]"

definition repeated_rates :: "(string \<times> (string \<Rightarrow> cell)) list" where
  "repeated_rates = [(''03-01-2024'', (\<lambda>c. NonNumeric)(''USD'' := Numeric (5 / 4))),
                     (''03-01-2024'', (\<lambda>c. NonNumeric)(''USD'' := Numeric 2)),
                     (''04-01-2024'', (\<lambda>c. NonNumeric)(''USD'' := Numeric 3))]"

section \<open>Rounding\<close>

lemma round_half_even_bounds:
  "\<bar>of_int (round_half_even x) - x\<bar> \<le> 1 / 2"
proof -
  have "of_int \<lfloor>x\<rfloor> \<le> x" and "x < of_int \<lfloor>x\<rfloor> + 1"
    by linarith+
  then show ?thesis
    unfolding round_half_even_def Let_def by (simp add: abs_if) linarith
qed

lemma py_round_close:
  "\<bar>py_round x n - x\<bar> \<le> 1 / (2 * 10 ^ n)"
proof -
  have pos: "(0::rat) < 10 ^ n" by simp
  have "py_round x n - x = (of_int (round_half_even (x * 10 ^ n)) - x * 10 ^ n) / 10 ^ n"
    unfolding py_round_def by (simp add: diff_divide_distrib)
  then have "\<bar>py_round x n - x\<bar> = \<bar>of_int (round_half_even (x * 10 ^ n)) - x * 10 ^ n\<bar> / 10 ^ n"
    by (simp add: abs_divide)
  also have "\<dots> \<le> (1 / 2) / 10 ^ n"
    using round_half_even_bounds [of "x * 10 ^ n"] pos by (intro divide_right_mono) auto
  finally show ?thesis by simp
qed

lemma py_round_grid:
  "\<exists>k::int. py_round x n = of_int k / 10 ^ n"
  unfolding py_round_def by blast

section \<open>Conversion rounds the product to two decimals\<close>

text \<open>
  C7. For a present price and a present rate, \<open>convert_usd_to_eur\<close> returns the product
  rounded to two decimals: the result is \<open>py_round (price * rate) 2\<close>, which is a whole
  number of hundredths at most half a hundredth away from the product. A price of 100.00 at
  the rate 0.92 gives exactly 92.00.
\<close>

theorem convert_usd_to_eur_rounds:
  "convert_usd_to_eur (Some price) (Some rate) = Some (py_round (price * rate) 2) \<and>
   (\<exists>k::int. py_round (price * rate) 2 = of_int k / 100) \<and>
   \<bar>py_round (price * rate) 2 - price * rate\<bar> \<le> 1 / 200 \<and>
   convert_usd_to_eur (Some 100) (Some (92 / 100)) = Some 92"
proof -
  have grid: "\<exists>k::int. py_round (price * rate) 2 = of_int k / 100"
    using py_round_grid [of "price * rate" 2] by simp
  have near: "\<bar>py_round (price * rate) 2 - price * rate\<bar> \<le> 1 / 200"
    using py_round_close [of "price * rate" 2] by simp
  have ex: "py_round (100 * (92 / 100)) 2 = 92"
    by (simp add: py_round_def round_half_even_def)
  show ?thesis
    using grid near ex by (simp add: convert_usd_to_eur_def)
qed

theorem convert_usd_to_eur_rounds_witness:
  "convert_usd_to_eur (Some (1 / 8)) (Some 1) = Some (12 / 100)"
proof -
  have "py_round (1 / 8) 2 = 12 / 100"
    by code_simp
  then show ?thesis
    using convert_usd_to_eur_rounds [of "1 / 8" 1] by simp
qed

section \<open>The as-of lookup\<close>

lemma set_valid_dates: "set (valid_dates rs) = {d. \<exists>r\<in>set rs. Date r = Some d}"
  by (auto simp: valid_dates_def split: option.splits)

lemma set_available_dates:
  "set (available_dates rs (Some t)) = {r \<in> set rs. \<exists>d. Date r = Some d \<and> d \<le> t}"
proof -
  have "date_le x (Some t) = (\<exists>d. x = Some d \<and> d \<le> t)" for x
    by (cases x) auto
  then show ?thesis by (auto simp: available_dates_def)
qed

lemma find_filter: "find P (filter Q xs) = find (\<lambda>x. Q x \<and> P x) xs"
  by (induction xs) auto

lemma find_split:
  "find P xs = Some x \<Longrightarrow> \<exists>pre post. xs = pre @ x # post \<and> P x \<and> (\<forall>p\<in>set pre. \<not> P p)"
proof (induction xs)
  case Nil
  then show ?case by simp
next
  case (Cons a xs)
  show ?case
  proof (cases "P a")
    case True
    with Cons.prems have "a = x" by simp
    with True show ?thesis by (intro exI [of _ "[]"] exI [of _ xs]) auto
  next
    case False
    with Cons.prems have "find P xs = Some x" by simp
    from Cons.IH [OF this] obtain pre post where
      "xs = pre @ x # post" "P x" "\<forall>p\<in>set pre. \<not> P p" by blast
    with False show ?thesis by (intro exI [of _ "a # pre"] exI [of _ post]) auto
  qed
qed

lemma find_first:
  "P x \<Longrightarrow> \<forall>p\<in>set pre. \<not> P p \<Longrightarrow> find P (pre @ x # post) = Some x"
  by (induction pre) auto

lemma most_recent_row_available:
  assumes "available_dates rs (Some t) \<noteq> []"
  shows "most_recent_row (available_dates rs (Some t)) =
           find (\<lambda>r. Date r = Some (Max {d. d \<le> t \<and> (\<exists>r\<in>set rs. Date r = Some d)})) rs"
proof -
  let ?av = "available_dates rs (Some t)"
  let ?D = "{d. d \<le> t \<and> (\<exists>r\<in>set rs. Date r = Some d)}"
  have D: "set (valid_dates ?av) = ?D"
    by (auto simp: set_valid_dates set_available_dates)
  from assms obtain r where "r \<in> set ?av" by (cases ?av) auto
  then have "?D \<noteq> {}" by (auto simp: set_available_dates)
  with D have ne: "valid_dates ?av \<noteq> []" by auto
  have fin: "finite ?D" using D [symmetric] by simp
  have "Max ?D \<in> ?D" using fin \<open>?D \<noteq> {}\<close> by (rule Max_in)
  then have le: "Max ?D \<le> t" by simp
  from ne obtain d ds where dd: "valid_dates ?av = d # ds" by (cases "valid_dates ?av") auto
  have "most_recent_row ?av = find (\<lambda>r. Date r = Some (Max (set (valid_dates ?av)))) ?av"
    by (simp add: most_recent_row_def dd)
  also have "\<dots> = find (\<lambda>r. Date r = Some (Max ?D)) ?av"
    by (simp only: D)
  also have "\<dots> = find (\<lambda>r. date_le (Date r) (Some t) \<and> Date r = Some (Max ?D)) rs"
    by (simp only: available_dates_def find_filter)
  also have "\<dots> = find (\<lambda>r. Date r = Some (Max ?D)) rs"
    using le by (intro arg_cong2 [where f = find] ext) auto
  finally show ?thesis .
qed

lemma as_of_row_iff:
  "as_of_row rs t r \<longleftrightarrow>
     available_dates rs (Some t) \<noteq> [] \<and> most_recent_row (available_dates rs (Some t)) = Some r"
proof
  let ?D = "{d. d \<le> t \<and> (\<exists>r\<in>set rs. Date r = Some d)}"
  have fin: "finite ?D"
  proof (rule finite_subset)
    show "?D \<subseteq> set (valid_dates rs)" by (auto simp: set_valid_dates)
  qed simp
  {
    assume "as_of_row rs t r"
    then obtain pre post d where rs: "rs = pre @ r # post" and d: "Date r = Some d" "d \<le> t"
      and pre: "\<forall>p\<in>set pre. \<forall>e. Date p = Some e \<longrightarrow> e \<le> t \<longrightarrow> e < d"
      and post: "\<forall>p\<in>set post. \<forall>e. Date p = Some e \<longrightarrow> e \<le> t \<longrightarrow> e \<le> d"
      unfolding as_of_row_def by blast
    have "r \<in> set (available_dates rs (Some t))"
      using rs d by (simp add: set_available_dates)
    then have ne: "available_dates rs (Some t) \<noteq> []" by auto
    have "d \<in> ?D" using rs d by auto
    moreover have "\<forall>e\<in>?D. e \<le> d"
      using rs d pre post by (auto simp: less_imp_le) 
    ultimately have m: "Max ?D = d" using fin by (intro Max_eqI) auto
    have "\<forall>p\<in>set pre. Date p \<noteq> Some d" using pre d by auto
    then have "find (\<lambda>r. Date r = Some d) (pre @ r # post) = Some r"
      using d by (intro find_first) auto
    then have "find (\<lambda>r. Date r = Some d) rs = Some r"
      by (simp only: rs)
    then show "available_dates rs (Some t) \<noteq> [] \<and> most_recent_row (available_dates rs (Some t)) = Some r"
      using ne by (simp add: most_recent_row_available m)
  }
  {
    assume a: "available_dates rs (Some t) \<noteq> [] \<and> most_recent_row (available_dates rs (Some t)) = Some r"
    then have f: "find (\<lambda>r. Date r = Some (Max ?D)) rs = Some r"
      using most_recent_row_available [of rs t] by simp
    from a obtain x where "x \<in> set (available_dates rs (Some t))"
      by (cases "available_dates rs (Some t)") auto
    then have "?D \<noteq> {}" by (auto simp: set_available_dates)
    with fin have mem: "Max ?D \<in> ?D" by (rule Max_in)
    from find_split [OF f] obtain pre post where rs: "rs = pre @ r # post"
      and r: "Date r = Some (Max ?D)" and pre: "\<forall>p\<in>set pre. Date p \<noteq> Some (Max ?D)" by blast
    have ub: "e \<le> Max ?D" if "p \<in> set rs" "Date p = Some e" "e \<le> t" for p e
      using that fin by (intro Max_ge) auto
    have "\<forall>p\<in>set pre. \<forall>e. Date p = Some e \<longrightarrow> e \<le> t \<longrightarrow> e < Max ?D"
    proof (intro ballI allI impI)
      fix p e assume p: "p \<in> set pre" "Date p = Some e" "e \<le> t"
      then have "e \<le> Max ?D" using ub [of p e] rs by auto
      moreover have "e \<noteq> Max ?D" using pre p by auto
      ultimately show "e < Max ?D" by simp
    qed
    moreover have "\<forall>p\<in>set post. \<forall>e. Date p = Some e \<longrightarrow> e \<le> t \<longrightarrow> e \<le> Max ?D"
      using ub rs by auto
    ultimately show "as_of_row rs t r"
      unfolding as_of_row_def using rs r mem by blast
  }
qed

lemma get_usd_to_eur_rate_selected:
  assumes "as_of_row (rows df) t r"
  shows "get_usd_to_eur_rate df (Some t) =
           (if ''USD'' \<in> set (columns df) then
              (case cells r ''USD'' of
                 None \<Rightarrow> Inr None
               | Some usd \<Rightarrow> if usd = 0 then Inl ZeroDivisionError else Inr (Some (1 / usd)))
            else Inr None)"
proof -
  from assms have av: "available_dates (rows df) (Some t) \<noteq> []"
    and sel: "most_recent_row (available_dates (rows df) (Some t)) = Some r"
    by (simp_all add: as_of_row_iff)
  from av have "rows df \<noteq> []" by (auto simp: available_dates_def)
  with av sel show ?thesis
    by (simp add: get_usd_to_eur_rate_def empty_df_def py_truediv_def split: option.splits)
qed

lemma get_usd_to_eur_rate_none_before:
  assumes "\<not> (\<exists>r\<in>set (rows df). \<exists>d. Date r = Some d \<and> d \<le> t)"
  shows "get_usd_to_eur_rate df (Some t) = Inr None"
proof -
  from assms have "set (available_dates (rows df) (Some t)) = {}"
    by (auto simp: set_available_dates)
  then show ?thesis by (simp add: get_usd_to_eur_rate_def)
qed

lemma as_of_row_exists:
  assumes "\<exists>r\<in>set rs. \<exists>d. Date r = Some d \<and> d \<le> t"
  shows "\<exists>r. as_of_row rs t r"
proof -
  let ?av = "available_dates rs (Some t)"
  let ?D = "{d. d \<le> t \<and> (\<exists>r\<in>set rs. Date r = Some d)}"
  from assms have "set ?av \<noteq> {}" by (auto simp: set_available_dates)
  then have ne: "?av \<noteq> []" by auto
  have fin: "finite ?D"
  proof (rule finite_subset)
    show "?D \<subseteq> set (valid_dates rs)" by (auto simp: set_valid_dates)
  qed simp
  from assms have "?D \<noteq> {}" by auto
  with fin have "Max ?D \<in> ?D" by (rule Max_in)
  then obtain r where "r \<in> set rs" "Date r = Some (Max ?D)" by auto
  then have "find (\<lambda>r. Date r = Some (Max ?D)) rs \<noteq> None"
    by (auto simp: find_None_iff)
  then obtain r' where "most_recent_row ?av = Some r'"
    using most_recent_row_available [OF ne] by auto
  with ne show ?thesis using as_of_row_iff by blast
qed

text \<open>
  C1 (amended). For every rate table and target date: when no row has a date at or before the
  target, the lookup returns \<open>None\<close>; otherwise the table has an as-of row (the first row
  carrying the greatest date at or before the target), and when that row's USD value is
  present and not zero the lookup returns its reciprocal \<open>1 / USD\<close>, the EUR-per-USD rate,
  not the stored USD-per-EUR value.
\<close>

theorem get_usd_to_eur_rate_as_of:
  "(\<not> (\<exists>r\<in>set (rows df). \<exists>d. Date r = Some d \<and> d \<le> t) \<longrightarrow>
      get_usd_to_eur_rate df (Some t) = Inr None) \<and>
   ((\<exists>r\<in>set (rows df). \<exists>d. Date r = Some d \<and> d \<le> t) \<longrightarrow>
      (\<exists>r. as_of_row (rows df) t r)) \<and>
   (\<forall>r usd. as_of_row (rows df) t r \<and> ''USD'' \<in> set (columns df) \<and>
      cells r ''USD'' = Some usd \<and> usd \<noteq> 0 \<longrightarrow>
      get_usd_to_eur_rate df (Some t) = Inr (Some (1 / usd)))"
proof -
  have none: "get_usd_to_eur_rate df (Some t) = Inr None"
    if "\<not> (\<exists>r\<in>set (rows df). \<exists>d. Date r = Some d \<and> d \<le> t)"
    using that by (rule get_usd_to_eur_rate_none_before)
  have ex: "\<exists>r. as_of_row (rows df) t r"
    if "\<exists>r\<in>set (rows df). \<exists>d. Date r = Some d \<and> d \<le> t"
    using that by (rule as_of_row_exists)
  have rate: "get_usd_to_eur_rate df (Some t) = Inr (Some (1 / usd))"
    if "as_of_row (rows df) t r" "''USD'' \<in> set (columns df)" "cells r ''USD'' = Some usd" "usd \<noteq> 0"
    for r usd
    using that by (simp add: get_usd_to_eur_rate_selected)
  from none ex rate show ?thesis by blast
qed

lemma jan_rates_as_of:
  "as_of_row (rows jan_rates) 738889 (rows jan_rates ! 1)"
  unfolding as_of_row_def jan_rates_def
  by (intro exI [of _ "[\<lparr>Date = Some 738886, cells = (\<lambda>c. None)(''USD'' := Some (11 / 10))\<rparr>]"]
        exI [of _ "[\<lparr>Date = Some 738890, cells = (\<lambda>c. None)(''USD'' := Some (13 / 10))\<rparr>]"]
        exI [of _ 738888]) simp

text \<open>
  On \<open>jan_rates\<close> the lookup for 4 January returns the reciprocal of the 3 January value,
  and the lookup for 31 December returns \<open>None\<close>.
\<close>

theorem get_usd_to_eur_rate_as_of_witness:
  "get_usd_to_eur_rate jan_rates (Some 738889) = Inr (Some (4 / 5)) \<and>
   get_usd_to_eur_rate jan_rates (Some 738885) = Inr None"
proof -
  have usd: "cells (rows jan_rates ! 1) ''USD'' = Some (5 / 4)"
    by (simp add: jan_rates_def)
  have col: "''USD'' \<in> set (columns jan_rates)"
    by (simp add: jan_rates_def)
  have none: "\<not> (\<exists>r\<in>set (rows jan_rates). \<exists>d. Date r = Some d \<and> d \<le> 738885)"
    by (simp add: jan_rates_def)
  have nz: "(5 / 4 :: rat) \<noteq> 0"
    by simp
  have "get_usd_to_eur_rate jan_rates (Some 738889) = Inr (Some (1 / (5 / 4)))"
    using get_usd_to_eur_rate_as_of [of jan_rates 738889] jan_rates_as_of usd col nz by blast
  moreover have "get_usd_to_eur_rate jan_rates (Some 738885) = Inr None"
    using get_usd_to_eur_rate_as_of [of jan_rates 738885] none by blast
  ultimately show ?thesis by simp
qed

text \<open>
  C1 as stated fails: the lookup for 4 January does not return the rate stored on 3 January
  (1.25) but 0.8.
\<close>

theorem get_usd_to_eur_rate_stored_counterexample:
  "cells (rows jan_rates ! 1) ''USD'' = Some (5 / 4) \<and>
   get_usd_to_eur_rate jan_rates (Some 738889) = Inr (Some (4 / 5)) \<and>
   get_usd_to_eur_rate jan_rates (Some 738889) \<noteq> Inr (cells (rows jan_rates ! 1) ''USD'')"
  by (simp add: jan_rates_def get_usd_to_eur_rate_def empty_df_def available_dates_def
      most_recent_row_def valid_dates_def py_truediv_def)

text \<open>
  C10. The lookup returns 1 divided by the USD value of the selected as-of row, which differs
  from the stored value unless that value squares to 1; and when the selected row has no USD
  value the lookup returns \<open>None\<close>, whatever the earlier rows hold.
\<close>

theorem get_usd_to_eur_rate_reciprocal:
  "(\<forall>r usd. as_of_row (rows df) t r \<and> ''USD'' \<in> set (columns df) \<and>
      cells r ''USD'' = Some usd \<and> usd \<noteq> 0 \<longrightarrow>
      get_usd_to_eur_rate df (Some t) = Inr (Some (1 / usd)) \<and>
      (usd * usd \<noteq> 1 \<longrightarrow> get_usd_to_eur_rate df (Some t) \<noteq> Inr (Some usd))) \<and>
   (\<forall>r. as_of_row (rows df) t r \<and> cells r ''USD'' = None \<longrightarrow>
      get_usd_to_eur_rate df (Some t) = Inr None)"
proof -
  have "1 / usd \<noteq> usd" if "usd * usd \<noteq> 1" "usd \<noteq> 0" for usd :: rat
    using that by (simp add: divide_eq_eq)
  then show ?thesis
    by (auto simp: get_usd_to_eur_rate_selected)
qed

lemma usd_gap_rates_as_of:
  "as_of_row (rows usd_gap_rates) 738889 (rows usd_gap_rates ! 1)"
  unfolding as_of_row_def usd_gap_rates_def
  by (intro exI [of _ "[\<lparr>Date = Some 738886, cells = (\<lambda>c. None)(''USD'' := Some (11 / 10))\<rparr>]"]
        exI [of _ "[]"] exI [of _ 738888]) simp

text \<open>
  In \<open>usd_gap_rates\<close> the row of 1 January has a USD value, the row of 3 January has none:
  the lookup for 4 January returns \<open>None\<close>.
\<close>

theorem get_usd_to_eur_rate_reciprocal_witness:
  "get_usd_to_eur_rate jan_rates (Some 738889) = Inr (Some (1 / (5 / 4))) \<and>
   get_usd_to_eur_rate jan_rates (Some 738889) \<noteq> Inr (Some (5 / 4)) \<and>
   cells (rows usd_gap_rates ! 0) ''USD'' = Some (11 / 10) \<and>
   Date (rows usd_gap_rates ! 0) = Some 738886 \<and>
   get_usd_to_eur_rate usd_gap_rates (Some 738889) = Inr None"
proof -
  have usd: "cells (rows jan_rates ! 1) ''USD'' = Some (5 / 4)"
    and col: "''USD'' \<in> set (columns jan_rates)"
    by (simp_all add: jan_rates_def)
  have ne: "(5 / 4 :: rat) \<noteq> 0" "(5 / 4 :: rat) * (5 / 4) \<noteq> 1"
    by simp_all
  have gap: "cells (rows usd_gap_rates ! 1) ''USD'' = None"
    by (simp add: usd_gap_rates_def)
  have a: "get_usd_to_eur_rate jan_rates (Some 738889) = Inr (Some (1 / (5 / 4))) \<and>
      get_usd_to_eur_rate jan_rates (Some 738889) \<noteq> Inr (Some (5 / 4))"
    using get_usd_to_eur_rate_reciprocal [of jan_rates 738889] jan_rates_as_of usd col ne by blast
  have b: "get_usd_to_eur_rate usd_gap_rates (Some 738889) = Inr None"
    using get_usd_to_eur_rate_reciprocal [of usd_gap_rates 738889] usd_gap_rates_as_of gap by blast
  show ?thesis using a b by (simp add: usd_gap_rates_def)
qed

section \<open>Conversion without a rate\<close>

lemma convert_stock_None:
  "convert_stock None (r, stats) s =
     (r, stats\<lparr>skipped_no_rate := skipped_no_rate stats + (if priced r s then 1 else 0),
              skipped_missing_price := skipped_missing_price stats +
                 (if prices r s = Some None then 1 else 0)\<rparr>)"
  by (auto simp: convert_stock_def priced_def split: option.splits)

lemma convert_stock_no_rate:
  "foldl (convert_stock None) (r, stats) ss =
     (r, stats\<lparr>skipped_no_rate := skipped_no_rate stats + length (filter (priced r) ss),
              skipped_missing_price := skipped_missing_price stats +
                 length (filter (\<lambda>s. prices r s = Some None) ss)\<rparr>)"
proof (induction ss arbitrary: stats)
  case Nil
  then show ?case by simp
next
  case (Cons s ss)
  show ?case
    by (simp add: convert_stock_None Cons.IH)
qed

text \<open>
  C8. With no rate, \<open>convert_usd_to_eur\<close> returns the price it was given. In the loop over
  the new records, a record whose date has no as-of rate comes back unchanged, and
  \<open>skipped_no_rate\<close> grows by one for every USD instrument that has a price in the record;
  nothing is counted as converted.
\<close>

theorem convert_without_rate_passes_through:
  "convert_usd_to_eur usd_price None = usd_price \<and>
   (get_usd_to_eur_rate currency_df (Some (record_date r)) = Inr None \<longrightarrow>
      (\<exists>stats'. convert_record currency_df USD_STOCKS r stats = Inr (r, stats') \<and>
         skipped_no_rate stats' = skipped_no_rate stats + length (filter (priced r) USD_STOCKS) \<and>
         converted stats' = converted stats))"
proof -
  have pass: "convert_usd_to_eur usd_price None = usd_price"
    by (simp add: convert_usd_to_eur_def)
  have loop: "\<exists>stats'. convert_record currency_df USD_STOCKS r stats = Inr (r, stats') \<and>
      skipped_no_rate stats' = skipped_no_rate stats + length (filter (priced r) USD_STOCKS) \<and>
      converted stats' = converted stats"
    if none: "get_usd_to_eur_rate currency_df (Some (record_date r)) = Inr None"
  proof -
    have "convert_record currency_df USD_STOCKS r stats =
        Inr (foldl (convert_stock None) (r, stats) USD_STOCKS)"
      by (simp add: convert_record_def none)
    then show ?thesis
      by (simp add: convert_stock_no_rate)
  qed
  from pass loop show ?thesis by blast
qed

text \<open>
  The rates of \<open>jan_rates\<close> start on 1 January 2024, so a record of 29 December 2023 has no
  rate: its IBM price stays 100 and one no-rate skip is counted.
\<close>

theorem convert_without_rate_passes_through_witness:
  "\<exists>stats'. convert_record jan_rates [''IBM Share''] ibm_record
      \<lparr>converted = 0, skipped_no_rate = 0, skipped_missing_price = 0\<rparr> = Inr (ibm_record, stats') \<and>
     skipped_no_rate stats' = 1 \<and> converted stats' = 0"
proof -
  let ?z = "\<lparr>converted = 0, skipped_no_rate = 0, skipped_missing_price = 0\<rparr>"
  have none: "get_usd_to_eur_rate jan_rates (Some (record_date ibm_record)) = Inr None"
    by (simp add: ibm_record_def jan_rates_def get_usd_to_eur_rate_def empty_df_def
        available_dates_def)
  have n: "length (filter (priced ibm_record) [''IBM Share'']) = 1"
    by (simp add: priced_def ibm_record_def)
  show ?thesis
    using convert_without_rate_passes_through [of None jan_rates ibm_record "[''IBM Share'']" ?z]
      none n by simp
qed

section \<open>The merge keeps the last record of each date\<close>

lemma with_date_drop_duplicates_last:
  "with_date k (drop_duplicates_last rs) =
     (case with_date k rs of [] \<Rightarrow> [] | x # xs \<Rightarrow> [last (x # xs)])"
proof (induction rs)
  case Nil
  then show ?case by (simp add: with_date_def)
next
  case (Cons r rs)
  show ?case
  proof (cases "Date r = k")
    case False
    then show ?thesis using Cons.IH by (simp add: with_date_def)
  next
    case True
    show ?thesis
    proof (cases "Date r \<in> set (map Date rs)")
      case dup: True
      then obtain r' where "r' \<in> set rs" "Date r' = k" using True by auto
      then have "r' \<in> set (with_date k rs)" by (simp add: with_date_def)
      then obtain x xs where "with_date k rs = x # xs" by (cases "with_date k rs") auto
      then show ?thesis using Cons.IH True dup by (simp add: with_date_def)
    next
      case nodup: False
      then have "\<forall>x\<in>set rs. Date x \<noteq> k" using True by (simp add: image_iff) blast
      then have "with_date k rs = []" by (simp add: with_date_def filter_empty_conv)
      then show ?thesis using Cons.IH True nodup by (simp add: with_date_def)
    qed
  qed
qed

text \<open>
  C2. For every pair of tables and every date key \<open>k\<close>: the merged table holds no record
  of \<open>k\<close> when neither table has one, and otherwise exactly one, the last record of \<open>k\<close> in
  the concatenation of existing followed by incoming. So a record of the incoming table
  wins over the existing ones, and a key that occurs once keeps its record.
\<close>

theorem merge_by_date_keeps_last:
  "with_date k (rows (merge_by_date existing incoming)) =
     (case with_date k (rows existing @ rows incoming) of
        [] \<Rightarrow> []
      | x # xs \<Rightarrow> [last (x # xs)]) \<and>
   (with_date k (rows incoming) \<noteq> [] \<longrightarrow>
      with_date k (rows (merge_by_date existing incoming)) = [last (with_date k (rows incoming))]) \<and>
   (\<forall>r. with_date k (rows existing @ rows incoming) = [r] \<longrightarrow>
      with_date k (rows (merge_by_date existing incoming)) = [r])"
proof -
  let ?all = "with_date k (rows existing @ rows incoming)"
  let ?merged = "with_date k (rows (merge_by_date existing incoming))"
  have rows: "rows (merge_by_date existing incoming) =
      drop_duplicates_last (rows existing @ rows incoming)"
    by (simp add: merge_by_date_def drop_duplicates_def concat_df_def)
  have main: "?merged = (case ?all of [] \<Rightarrow> [] | x # xs \<Rightarrow> [last (x # xs)])"
    unfolding rows by (rule with_date_drop_duplicates_last)
  have app: "?all = with_date k (rows existing) @ with_date k (rows incoming)"
    by (simp add: with_date_def)
  have inc: "?merged = [last (with_date k (rows incoming))]"
    if ne: "with_date k (rows incoming) \<noteq> []"
  proof -
    from ne app have "?all \<noteq> []" by simp
    then obtain x xs where c: "?all = x # xs" by (cases ?all) auto
    have "last ?all = last (with_date k (rows incoming))"
      unfolding app using ne by (rule last_appendR)
    with main c show ?thesis by simp
  qed
  have once: "?merged = [r]" if "?all = [r]" for r
    using main that by simp
  from main inc once show ?thesis by blast
qed

text \<open>
  Day 2 is in both tables: the merged table keeps the incoming record of day 2 and the
  records of days 1 and 3.
\<close>

theorem merge_by_date_keeps_last_witness:
  "rows (merge_by_date
      \<lparr>columns = [''X''], rows = [price_row 1 ''X'' 10, price_row 2 ''X'' 20]\<rparr>
      \<lparr>columns = [''X''], rows = [price_row 2 ''X'' 25, price_row 3 ''X'' 30]\<rparr>)
    = [price_row 1 ''X'' 10, price_row 2 ''X'' 25, price_row 3 ''X'' 30] \<and>
   with_date (Some 2) (rows (merge_by_date
      \<lparr>columns = [''X''], rows = [price_row 1 ''X'' 10, price_row 2 ''X'' 20]\<rparr>
      \<lparr>columns = [''X''], rows = [price_row 2 ''X'' 25, price_row 3 ''X'' 30]\<rparr>))
    = [price_row 2 ''X'' 25]"
proof -
  let ?e = "\<lparr>columns = [''X''], rows = [price_row 1 ''X'' 10, price_row 2 ''X'' 20]\<rparr>"
  let ?i = "\<lparr>columns = [''X''], rows = [price_row 2 ''X'' 25, price_row 3 ''X'' 30]\<rparr>"
  have inc: "with_date (Some 2) (rows ?i) = [price_row 2 ''X'' 25]"
    by (simp add: with_date_def price_row_def)
  then have ne: "with_date (Some 2) (rows ?i) \<noteq> []"
    by simp
  have "with_date (Some 2) (rows (merge_by_date ?e ?i)) = [last (with_date (Some 2) (rows ?i))]"
    using merge_by_date_keeps_last [of "Some 2" ?e ?i] ne by blast
  then have a: "with_date (Some 2) (rows (merge_by_date ?e ?i)) = [price_row 2 ''X'' 25]"
    unfolding inc by simp
  have b: "rows (merge_by_date ?e ?i) =
      [price_row 1 ''X'' 10, price_row 2 ''X'' 25, price_row 3 ''X'' 30]"
    by (simp add: merge_by_date_def drop_duplicates_def concat_df_def price_row_def)
  from a b show ?thesis by blast
qed

section \<open>Gap filling of the share prices: what a candidate is and how it is resolved\<close>

lemma recent_from_iff:
  "(i, d, r) \<in> set (recent_from n rs start) \<longleftrightarrow>
     n \<le> i \<and> i < n + length rs \<and> r = rs ! (i - n) \<and> Date r = Some d \<and> start \<le> d"
proof (induction rs arbitrary: n)
  case Nil
  then show ?case by simp
next
  case (Cons a rs)
  have nth: "(a # rs) ! (i - n) = rs ! (i - Suc n)" if "Suc n \<le> i"
    using that by (simp add: Suc_diff_le nth_Cons')
  show ?case
  proof (cases "i = n")
    case True
    have "(i, d, r) \<notin> set (recent_from (Suc n) rs start)"
      using Cons.IH [of "Suc n"] True by auto
    then show ?thesis using True
      by (auto split: option.splits)
  next
    case False
    then show ?thesis
      using nth by (auto simp: Cons.IH split: option.splits)
  qed
qed

lemma recent_records_iff:
  "(i, d, r) \<in> set (recent_records rs start) \<longleftrightarrow>
     i < length rs \<and> r = rs ! i \<and> Date r = Some d \<and> start \<le> d"
  by (simp add: recent_records_def recent_from_iff)



lemma most_recent_quote_None:
  "most_recent_quote stock_data target = None \<longleftrightarrow> (\<forall>e\<in>fst ` set stock_data. \<not> e \<le> target)"
proof (cases "filter (\<lambda>d. d \<le> target) (map fst stock_data)")
  case Nil
  then have "\<forall>e\<in>set (map fst stock_data). \<not> e \<le> target"
    by (simp add: filter_empty_conv)
  with Nil show ?thesis by (simp add: most_recent_quote_def)
next
  case (Cons d ds)
  have "Max (set (d # ds)) \<in> set (d # ds)"
    by (rule Max_in) simp_all
  then have m: "Max (set (d # ds)) \<in> set (filter (\<lambda>d. d \<le> target) (map fst stock_data))"
    by (simp only: Cons)
  then have mem: "Max (set (d # ds)) \<in> fst ` set stock_data" and le: "Max (set (d # ds)) \<le> target"
    by simp_all
  from mem have "map_of stock_data (Max (set (d # ds))) \<noteq> None"
    by (simp add: map_of_eq_None_iff)
  then have res: "most_recent_quote stock_data target \<noteq> None"
    by (simp only: most_recent_quote_def Cons list.case Let_def) simp
  from mem le have "\<exists>e\<in>fst ` set stock_data. e \<le> target"
    by blast
  with res show ?thesis by blast
qed


lemma map_of_has_prior:
  assumes "map_of (data :: quotes) d = Some c"
  shows "\<exists>e\<in>fst ` set data. e \<le> d"
proof -
  from assms have "(d, c) \<in> set data" by (rule map_of_SomeD)
  then have "d \<in> fst ` set data" by force
  then show ?thesis by (intro bexI [of _ d]) simp_all
qed




lemma set_cell_length: "length (set_cell rs i c v) = length rs"
  by (simp add: set_cell_def)















lemma fill_gap_filled:
  "filled (fill_gap s data st p) =
     filled st + (if is_gap s p \<and> has_prior data p then 1 else 0)"
proof (cases p)
  case (fields i d r)
  show ?thesis
  proof (cases "cells r s")
    case (Some v)
    then show ?thesis by (simp add: fields fill_gap_def is_gap_def)
  next
    case None
    show ?thesis
    proof (cases "map_of data d")
      case (Some c)
      with None map_of_has_prior [OF Some] show ?thesis
        by (simp add: fields fill_gap_def is_gap_def has_prior_def Let_def)
    next
      case n: None
      show ?thesis
      proof (cases "most_recent_quote data d")
        case None
        then have "\<not> (\<exists>e\<in>fst ` set data. e \<le> d)"
          by (simp add: most_recent_quote_None)
        with None n \<open>cells r s = None\<close> show ?thesis
          by (simp add: fields fill_gap_def is_gap_def has_prior_def)
      next
        case (Some q)
        then have "\<exists>e\<in>fst ` set data. e \<le> d"
          using most_recent_quote_None [of data d] by auto
        with Some n \<open>cells r s = None\<close> show ?thesis
          by (cases q) (simp add: fields fill_gap_def is_gap_def has_prior_def Let_def)
      qed
    qed
  qed
qed

lemma fill_gap_skipped:
  "skipped (fill_gap s data st p) =
     skipped st + (if is_gap s p \<and> \<not> has_prior data p then 1 else 0)"
proof (cases p)
  case (fields i d r)
  show ?thesis
  proof (cases "cells r s")
    case (Some v)
    then show ?thesis by (simp add: fields fill_gap_def is_gap_def)
  next
    case None
    show ?thesis
    proof (cases "map_of data d")
      case (Some c)
      with None map_of_has_prior [OF Some] show ?thesis
        by (simp add: fields fill_gap_def is_gap_def has_prior_def Let_def)
    next
      case n: None
      show ?thesis
      proof (cases "most_recent_quote data d")
        case None
        then have "\<not> (\<exists>e\<in>fst ` set data. e \<le> d)"
          by (simp add: most_recent_quote_None)
        with None n \<open>cells r s = None\<close> show ?thesis
          by (simp add: fields fill_gap_def is_gap_def has_prior_def)
      next
        case (Some q)
        then have "\<exists>e\<in>fst ` set data. e \<le> d"
          using most_recent_quote_None [of data d] by auto
        with Some n \<open>cells r s = None\<close> show ?thesis
          by (cases q) (simp add: fields fill_gap_def is_gap_def has_prior_def Let_def)
      qed
    qed
  qed
qed

lemma fill_gap_event_dates:
  "map event_date (messages (fill_gap s data st p)) =
     map event_date (messages st) @ (if is_gap s p then [fst (snd p)] else [])"
  by (cases p) (auto simp: fill_gap_def is_gap_def Let_def split: option.splits)

lemma foldl_fill_gap_filled:
  "filled (foldl (fill_gap s data) st ps) =
     filled st + length (filter (\<lambda>p. is_gap s p \<and> has_prior data p) ps)"
  by (induction ps arbitrary: st) (simp_all add: fill_gap_filled)

lemma foldl_fill_gap_skipped:
  "skipped (foldl (fill_gap s data) st ps) =
     skipped st + length (filter (\<lambda>p. is_gap s p \<and> \<not> has_prior data p) ps)"
  by (induction ps arbitrary: st) (simp_all add: fill_gap_skipped)

lemma foldl_fill_gap_event_dates:
  "map event_date (messages (foldl (fill_gap s data) st ps)) =
     map event_date (messages st) @ map (\<lambda>p. fst (snd p)) (filter (is_gap s) ps)"
  by (induction ps arbitrary: st) (simp_all add: fill_gap_event_dates)




















lemma convert_filled_length:
  "convert_filled currency_df USD_STOCKS ps rs = Inr rs' \<Longrightarrow> length rs' = length rs"
  by (induction currency_df USD_STOCKS ps rs rule: convert_filled.induct)
     (auto simp: set_cell_length split: if_splits sum.splits option.splits)









lemma max_date_ge:
  assumes "max_date rs = Some m" and "r \<in> set rs" and "Date r = Some d"
  shows "d \<le> m"
proof -
  from assms(2,3) have d: "d \<in> set (valid_dates rs)"
    by (auto simp: set_valid_dates)
  then obtain x xs where c: "valid_dates rs = x # xs"
    by (cases "valid_dates rs") auto
  with assms(1) have "m = Max (set (valid_dates rs))"
    by (simp add: max_date_def)
  with d show ?thesis by simp
qed

lemma length_filter_split:
  "length (filter (\<lambda>p. P p \<and> Q p) xs) + length (filter (\<lambda>p. P p \<and> \<not> Q p) xs) =
     length (filter P xs)"
  by (induction xs) auto

lemma gap_dates_set:
  "set (map (\<lambda>p. fst (snd p)) (filter (is_gap s) (recent_records rs start))) =
     {d. start \<le> d \<and> (\<exists>r\<in>set rs. Date r = Some d \<and> cells r s = None)}"
proof (intro set_eqI iffI)
  fix d
  assume "d \<in> set (map (\<lambda>p. fst (snd p)) (filter (is_gap s) (recent_records rs start)))"
  then obtain i r where "(i, d, r) \<in> set (recent_records rs start)" and "cells r s = None"
    by (auto simp: is_gap_def)
  then show "d \<in> {d. start \<le> d \<and> (\<exists>r\<in>set rs. Date r = Some d \<and> cells r s = None)}"
    by (auto simp: recent_records_iff)
next
  fix d
  assume "d \<in> {d. start \<le> d \<and> (\<exists>r\<in>set rs. Date r = Some d \<and> cells r s = None)}"
  then obtain r where le: "start \<le> d" and r: "r \<in> set rs" "Date r = Some d" "cells r s = None"
    by auto
  from r(1) obtain i where "i < length rs" "rs ! i = r"
    by (auto simp: in_set_conv_nth)
  with le r have p: "(i, d, r) \<in> set (recent_records rs start)"
    by (simp add: recent_records_iff)
  have "is_gap s (i, d, r)" using r by (simp add: is_gap_def)
  with p have "(i, d, r) \<in> set (filter (is_gap s) (recent_records rs start))"
    by simp
  then have "fst (snd (i, d, r)) \<in> (\<lambda>p. fst (snd p)) ` set (filter (is_gap s) (recent_records rs start))"
    by (rule imageI)
  then show "d \<in> set (map (\<lambda>p. fst (snd p)) (filter (is_gap s) (recent_records rs start)))"
    by simp
qed

text \<open>
  C4 (amended). When the provider returns a non-empty result for an instrument of the table,
  the dates the engine attempts (one report each, in row order) are the dates of the rows
  that lie in the window from \<open>last_date - lookback_days\<close> to \<open>last_date\<close> and whose cell for
  the instrument is \<open>NaN\<close>; every attempt is counted as filled or as skipped. A calendar
  date of the window that has no row in the table is not among them.
\<close>

theorem fill_stock_gap_candidates:
  fixes st :: fill_state
  assumes dl: "yf_download ticker (last_date - lookback_days) (last_date + 1) = Some stock_data"
    and ne: "stock_data \<noteq> []"
    and col: "stock_name \<in> set cols"
    and last: "max_date (shares st) = Some last_date"
  defines "st' \<equiv> fill_stock yf_download cols (last_date - lookback_days) last_date st
      (stock_name, ticker)"
    and "gaps \<equiv> filter (is_gap stock_name) (recent_records (shares st) (last_date - lookback_days))"
  shows "map event_date (messages st') = map event_date (messages st) @ map (\<lambda>p. fst (snd p)) gaps \<and>
         set (map (\<lambda>p. fst (snd p)) gaps) =
           {d. last_date - lookback_days \<le> d \<and> d \<le> last_date \<and>
               (\<exists>r\<in>set (shares st). Date r = Some d \<and> cells r stock_name = None)} \<and>
         filled st' + skipped st' = filled st + skipped st + length gaps"
proof -
  let ?ps = "recent_records (shares st) (last_date - lookback_days)"
  have st': "st' = foldl (fill_gap stock_name stock_data) st ?ps"
    by (simp add: st'_def fill_stock_def dl ne col)
  have a: "map event_date (messages st') =
      map event_date (messages st) @ map (\<lambda>p. fst (snd p)) gaps"
    by (simp add: st' gaps_def foldl_fill_gap_event_dates)
  have b: "set (map (\<lambda>p. fst (snd p)) gaps) =
      {d. last_date - lookback_days \<le> d \<and> d \<le> last_date \<and>
          (\<exists>r\<in>set (shares st). Date r = Some d \<and> cells r stock_name = None)}"
    unfolding gaps_def gap_dates_set using max_date_ge [OF last] by blast
  have c: "filled st' + skipped st' = filled st + skipped st + length gaps"
    using length_filter_split [of "is_gap stock_name" "has_prior stock_data" ?ps]
    by (simp add: st' gaps_def foldl_fill_gap_filled foldl_fill_gap_skipped)
  from a b c show ?thesis by blast
qed

text \<open>
  In \<open>gap_prices\<close> the only row of the window without a price is 3 January 2024, and it is
  the only date attempted.
\<close>

theorem fill_stock_gap_candidates_witness:
  "map event_date (messages (fill_stock (\<lambda>t s e. Some x_quotes) [''X''] (738890 - 10) 738890
       (initial_state gap_prices) (''X'', ''X.DE''))) = [738888]"
proof -
  have dl: "(\<lambda>t s e. Some x_quotes) ''X.DE'' (738890 - 10) (738890 + 1) = Some x_quotes"
    by simp
  have ne: "x_quotes \<noteq> []"
    by (simp add: x_quotes_def)
  have col: "''X'' \<in> set [''X'']"
    by simp
  have last: "max_date (shares (initial_state gap_prices)) = Some 738890"
    by (simp add: max_date_def valid_dates_def initial_state_def gap_prices_def)
  have gaps: "map (\<lambda>p. fst (snd p)) (filter (is_gap ''X'')
      (recent_records (shares (initial_state gap_prices)) (738890 - 10))) = [738888]"
    by (simp add: recent_records_def initial_state_def gap_prices_def is_gap_def)
  have msgs: "messages (initial_state gap_prices) = []"
    by (simp add: initial_state_def)
  show ?thesis
    using fill_stock_gap_candidates [where yf_download = "\<lambda>t s e. Some x_quotes"
        and ticker = "''X.DE''" and last_date = 738890 and lookback_days = 10
        and stock_data = x_quotes and stock_name = "''X''" and cols = "[''X'']"
        and st = "initial_state gap_prices", OF dl ne col last]
    unfolding gaps msgs by simp
qed

text \<open>
  C4 as stated fails: \<open>sparse_prices\<close> has rows on 27 December 2023 and 5 January 2024
  only. 2 January 2024 lies in the ten-day window and has no observation, and the provider
  has a value for it; the engine returns the table unchanged and counts nothing.
\<close>

theorem date_without_row_not_identified:
  "max_date (rows sparse_prices) = Some 738890 \<and>
   738890 - 10 \<le> (738887 :: date) \<and> (738887 :: date) \<le> 738890 \<and>
   Some 738887 \<notin> set (map Date (rows sparse_prices)) \<and>
   fill_missing_stock_data (\<lambda>t s e. Some [(738887, Some 7)]) [(''X'', ''X.DE'')] [] sparse_prices
     jan_rates 10 = Inr (sparse_prices, \<lparr>filled = 0, skipped = 0\<rparr>)"
proof -
  have "fill_missing_stock_data (\<lambda>t s e. Some [(738887, Some 7)]) [(''X'', ''X.DE'')] [] sparse_prices
      jan_rates 10 = Inr (sparse_prices, \<lparr>filled = 0, skipped = 0\<rparr>)"
    by (simp add: fill_missing_stock_data_def sparse_prices_def empty_df_def max_date_def
        valid_dates_def fill_stock_def recent_records_def fill_gap_def)
  moreover have "max_date (rows sparse_prices) = Some 738890"
    by (simp add: max_date_def valid_dates_def sparse_prices_def)
  moreover have "Some 738887 \<notin> set (map Date (rows sparse_prices))"
    by (simp add: sparse_prices_def)
  ultimately show ?thesis by simp
qed

section \<open>Gap filling of the currency rates: exact dates only, and a row without a rate\<close>

lemma fill_rate_step:
  "fill_rate d (new_row, n) (c, forex_data) =
     (case map_of forex_data d of
        None \<Rightarrow> (new_row, n)
      | Some close \<Rightarrow> (new_row(c := py_round_nan close 4), Suc n))"
  by (simp add: fill_rate_def split: option.splits)

lemma foldl_fill_rate_cell:
  assumes "distinct (map fst cache)"
  shows "fst (foldl (fill_rate d) (new_row, n) cache) code =
     (case map_of cache code of
        None \<Rightarrow> new_row code
      | Some forex_data \<Rightarrow>
          (case map_of forex_data d of
             None \<Rightarrow> new_row code
           | Some close \<Rightarrow> py_round_nan close 4))"
  using assms
proof (induction cache arbitrary: new_row n)
  case Nil
  then show ?case by simp
next
  case (Cons entry cache)
  obtain c forex_data where entry: "entry = (c, forex_data)" by (cases entry)
  from Cons.prems entry have nc: "map_of cache c = None" and dist: "distinct (map fst cache)"
    by (simp_all add: map_of_eq_None_iff)
  show ?case
  proof (cases "map_of forex_data d")
    case None
    have "fst (foldl (fill_rate d) (new_row, n) (entry # cache)) code =
        fst (foldl (fill_rate d) (new_row, n) cache) code"
      by (simp add: entry fill_rate_step None)
    also note Cons.IH [OF dist]
    finally show ?thesis
      using nc None by (cases "code = c") (simp_all add: entry split: option.splits)
  next
    case (Some close)
    let ?row = "new_row(c := py_round_nan close 4)"
    have "fst (foldl (fill_rate d) (new_row, n) (entry # cache)) code =
        fst (foldl (fill_rate d) (?row, Suc n) cache) code"
      by (simp add: entry fill_rate_step Some)
    also note Cons.IH [OF dist]
    finally show ?thesis
      using nc Some by (cases "code = c") (simp_all add: entry split: option.splits)
  qed
qed

lemma foldl_fill_rate_count:
  "snd (foldl (fill_rate d) (new_row, n) cache) =
     n + length (filter (\<lambda>entry. map_of (snd entry) d \<noteq> None) cache)"
proof (induction cache arbitrary: new_row n)
  case Nil
  then show ?case by simp
next
  case (Cons entry cache)
  obtain c forex_data where entry: "entry = (c, forex_data)" by (cases entry)
  show ?case
  proof (cases "map_of forex_data d")
    case None
    then show ?thesis by (simp add: entry fill_rate_step Cons.IH)
  next
    case (Some close)
    then show ?thesis by (simp add: entry fill_rate_step Cons.IH)
  qed
qed

text \<open>
  C5 (amended). For every missing date and every cache of downloaded rates (one entry per
  currency code), the new row holds, for each cached currency, the rate the cache has for
  exactly that date, rounded to four decimals (a Close that is \<open>NaN\<close> stays \<open>NaN\<close>), and
  nothing when the cache has no observation
  for exactly that date, whatever earlier dates it has: there is no fallback to the closest
  earlier date. Each currency is resolved on its own, and \<open>currencies_filled\<close> counts the
  currencies resolved.
\<close>

theorem currency_row_exact_only:
  assumes "distinct (map fst cache)"
  shows "fst (currency_row cache missing_date) currency_code =
           (case map_of cache currency_code of
              None \<Rightarrow> None
            | Some forex_data \<Rightarrow>
                (case map_of forex_data missing_date of
                   None \<Rightarrow> None
                 | Some close \<Rightarrow> py_round_nan close 4)) \<and>
         snd (currency_row cache missing_date) =
           length (filter (\<lambda>entry. map_of (snd entry) missing_date \<noteq> None) cache) \<and>
         (\<forall>forex_data. map_of cache currency_code = Some forex_data \<and>
            map_of forex_data missing_date = None \<longrightarrow>
            fst (currency_row cache missing_date) currency_code = None)"
proof -
  have cell: "fst (currency_row cache missing_date) currency_code =
      (case map_of cache currency_code of
         None \<Rightarrow> None
       | Some forex_data \<Rightarrow>
           (case map_of forex_data missing_date of
              None \<Rightarrow> None
            | Some close \<Rightarrow> py_round_nan close 4))"
    unfolding currency_row_def by (rule foldl_fill_rate_cell [OF assms])
  have count: "snd (currency_row cache missing_date) =
      length (filter (\<lambda>entry. map_of (snd entry) missing_date \<noteq> None) cache)"
    unfolding currency_row_def by (simp add: foldl_fill_rate_count)
  have "fst (currency_row cache missing_date) currency_code = None"
    if "map_of cache currency_code = Some forex_data" "map_of forex_data missing_date = None"
    for forex_data
    using that by (simp add: cell)
  with cell count show ?thesis by blast
qed

text \<open>
  For 4 January 2024 the cache has a USD rate and no GBP rate (GBP stops on 3 January): the
  row gets USD and no GBP.
\<close>

theorem currency_row_exact_only_witness:
  "fst (currency_row usd_gbp_cache 738889) ''USD'' = Some (10877 / 10000) \<and>
   fst (currency_row usd_gbp_cache 738889) ''GBP'' = None \<and>
   snd (currency_row usd_gbp_cache 738889) = 1"
proof -
  have dist: "distinct (map fst usd_gbp_cache)"
    by (simp add: usd_gbp_cache_def)
  have r: "py_round_nan (Some (108768 / 100000)) 4 = Some (10877 / 10000)"
    by code_simp
  have usd: "map_of usd_gbp_cache ''USD'' =
      Some [(738888, Some (10876 / 10000)), (738889, Some (108768 / 100000))]"
    and gbp: "map_of usd_gbp_cache ''GBP'' = Some [(738888, Some (86 / 100))]"
    by (simp_all add: usd_gbp_cache_def)
  have n: "length (filter (\<lambda>entry. map_of (snd entry) 738889 \<noteq> None) usd_gbp_cache) = 1"
    by code_simp
  have q: "map_of [(738888, Some (10876 / 10000)), (738889, Some (108768 / 100000))]
      (738889 :: date) = Some (Some (108768 / 100000 :: rat))"
    by simp
  have "fst (currency_row usd_gbp_cache 738889) ''USD'' = Some (10877 / 10000)"
    using currency_row_exact_only [OF dist, of 738889 "''USD''"]
    by (simp only: usd q r option.case)
  moreover have "fst (currency_row usd_gbp_cache 738889) ''GBP'' = None"
    using currency_row_exact_only [OF dist, of 738889 "''GBP''"] by (simp add: gbp)
  moreover have "snd (currency_row usd_gbp_cache 738889) =
      length (filter (\<lambda>entry. map_of (snd entry) 738889 \<noteq> None) usd_gbp_cache)"
    using currency_row_exact_only [OF dist, of 738889 "''USD''"] by blast
  then have "snd (currency_row usd_gbp_cache 738889) = 1"
    by (simp only: n)
  ultimately show ?thesis by blast
qed

text \<open>
  C5 as stated fails: the cache has a USD rate for 3 January and none for 4 January. The
  price policy would fall back to 3 January (\<open>most_recent_quote\<close> finds it); the currency
  engine leaves USD unresolved for 4 January and counts the date as skipped.
\<close>

theorem currency_gap_has_no_fallback:
  "map_of [(738888, Some (11 / 10))] (738889 :: date) = (None :: rat option option) \<and>
   most_recent_quote [(738888, Some (11 / 10))] 738889 = Some (738888, Some (11 / 10)) \<and>
   fst (currency_row [(''USD'', [(738888, Some (11 / 10))])] 738889) ''USD'' = None \<and>
   fill_currency_date [(''USD'', [(738888, Some (11 / 10))])]
       \<lparr>filled = 0, skipped = 0, currency_rows = []\<rparr> 738889 =
     \<lparr>filled = 0, skipped = 1, currency_rows = []\<rparr>"
  by (simp add: most_recent_quote_def currency_row_def fill_rate_def fill_currency_date_def)

text \<open>
  C9 fails on a provider observation whose Close is \<open>NaN\<close>. \<open>one_rate\<close> has one row, of
  Wednesday 3 January 2024, and today is Thursday 4 January. The call is the one \<open>main\<close>
  makes, with a lookback of ten days: the missing dates are the seven weekdays from 25
  December to 2 January and 4 January. The provider returns one observation for USD, of 4
  January, and its Close is \<open>NaN\<close>. For 4 January lines 703-706 find the date, store
  \<open>round(nan, 4)\<close> and count the currency, and lines 711-714 append the row and count the
  date as filled: the table returned has a second row, of 4 January, in which no currency
  has a rate. The seven other dates are skipped.
\<close>

theorem nan_close_appends_row_without_rate:
  "fill_missing_currency_data (\<lambda>ticker start_date end_date. Some nan_quotes) (\<lambda>dates. dates)
       738889 one_rate 10 =
     Inr (one_rate\<lparr>rows := rows one_rate @ [\<lparr>Date = Some 738889, cells = \<lambda>c. None\<rparr>]\<rparr>,
          \<lparr>filled = 1, skipped = 7\<rparr>)"
  by (simp add: fill_missing_currency_data_def one_rate_def nan_quotes_def empty_df_def
      max_date_def valid_dates_def missing_dates_def weekday_def forex_data_cache_def
      fill_currency_date_def currency_row_def fill_rate_def py_round_nan_def sort_by_date_def
      Let_def)

section \<open>The projection: the validity mask, and a rate table that repeats a date\<close>

lemma filter_key_distinct:
  "distinct (map fst right) \<Longrightarrow>
     filter (\<lambda>(k, rates). k = d) right =
       (case map_of right d of None \<Rightarrow> [] | Some rates \<Rightarrow> [(d, rates)])"
proof (induction right)
  case Nil
  then show ?case by simp
next
  case (Cons a right)
  obtain k rates where a: "a = (k, rates)" by (cases a)
  show ?case
  proof (cases "k = d")
    case True
    with Cons.prems a have "map_of right d = None"
      by (simp add: map_of_eq_None_iff)
    with Cons True a show ?thesis by simp
  next
    case False
    with Cons a show ?thesis by simp
  qed
qed

lemma merge_left_distinct:
  assumes "distinct (map fst right)"
  shows "merge_left left right =
     map (\<lambda>(d, eur). (d, eur, case map_of right d of None \<Rightarrow> (\<lambda>c. NonNumeric) | Some rates \<Rightarrow> rates)) left"
proof -
  have "(case filter (\<lambda>(k, rates). k = d) right of
          [] \<Rightarrow> [(d, eur, \<lambda>c. NonNumeric)]
        | m # ms \<Rightarrow> map (\<lambda>(k, rates). (d, eur, rates)) (m # ms)) =
        [(d, eur, case map_of right d of None \<Rightarrow> (\<lambda>c. NonNumeric) | Some rates \<Rightarrow> rates)]"
    for d :: 'a and eur :: "rat option"
    by (simp add: filter_key_distinct [OF assms] split: option.splits)
  then show ?thesis
    unfolding merge_left_def by (induction left) auto
qed

lemma merged_distinct:
  assumes "distinct (map fst currency_ratios)"
  shows "map (\<lambda>(d, eur, rates). (eur, to_numeric (rates currency)))
           (merge_left (map (\<lambda>(d, price). (d, to_numeric price)) data_rows) currency_ratios) =
         map (\<lambda>(d, price). (to_numeric price, rate_on currency_ratios d currency)) data_rows"
  unfolding merge_left_distinct [OF assms] rate_on_def
  by (induction data_rows) (auto split: option.splits)

text \<open>
  For a rate table with one row per date, the projection of an instrument into a target
  currency has one cell per date of the instrument, and the cell of a date holds
  \<open>eur_price * rate\<close> rounded to two decimals exactly when the EUR price is numeric, the
  rate of that date is there and numeric, and the rate is greater than 0; in every other
  case the cell is \<open>None\<close>.
\<close>

lemma project_currency_unique_dates:
  assumes "distinct (map fst currency_ratios)"
  shows "\<exists>column. project_currency data_rows currency_ratios currency = column \<and>
     length column = length data_rows \<and>
     (\<forall>i<length data_rows.
        column ! i =
          (case (to_numeric (snd (data_rows ! i)),
                 rate_on currency_ratios (fst (data_rows ! i)) currency) of
             (Some eur, Some rate) \<Rightarrow> if 0 < rate then Some (py_round (eur * rate) 2) else None
           | _ \<Rightarrow> None) \<and>
        (column ! i \<noteq> None \<longleftrightarrow>
           (\<exists>eur rate. to_numeric (snd (data_rows ! i)) = Some eur \<and>
              rate_on currency_ratios (fst (data_rows ! i)) currency = Some rate \<and> 0 < rate)))"
proof -
  let ?cell = "\<lambda>(d, price). (to_numeric price, rate_on currency_ratios d currency)"
  let ?out = "\<lambda>(eur, rate). if valid eur rate then converted_value eur rate else None"
  let ?column = "map (\<lambda>r. ?out (?cell r)) data_rows"
  have no_valid: "?column = replicate (length data_rows) None"
    if "\<not> 0 < length (filter id (map (\<lambda>(eur, rate). valid eur rate) (map ?cell data_rows)))"
  proof -
    from that have "\<forall>r\<in>set data_rows. \<not> (case ?cell r of (eur, rate) \<Rightarrow> valid eur rate)"
      by (auto simp: filter_empty_conv)
    then have "\<forall>r\<in>set data_rows. ?out (?cell r) = None"
      by (auto split: prod.splits)
    then show ?thesis
      by (intro nth_equalityI) simp_all
  qed
  have pc: "project_currency data_rows currency_ratios currency =
      (if 0 < length (filter id (map (\<lambda>(eur, rate). valid eur rate) (map ?cell data_rows))) then
         take (length (map (\<lambda>(d, price). (d, to_numeric price)) data_rows))
           (map ?out (map ?cell data_rows))
       else replicate (length (map (\<lambda>(d, price). (d, to_numeric price)) data_rows)) None)"
    by (simp only: project_currency_def Let_def merged_distinct [OF assms])
  have res: "project_currency data_rows currency_ratios currency = ?column"
  proof (cases "0 < length (filter id (map (\<lambda>(eur, rate). valid eur rate) (map ?cell data_rows)))")
    case True
    then show ?thesis
      unfolding pc by (simp only: if_True length_map map_map o_def take_all_iff)
  next
    case False
    from no_valid [OF False] False show ?thesis
      unfolding pc by (simp only: if_False length_map)
  qed
  have cell: "?column ! i =
      (case (to_numeric (snd (data_rows ! i)),
             rate_on currency_ratios (fst (data_rows ! i)) currency) of
         (Some eur, Some rate) \<Rightarrow> if 0 < rate then Some (py_round (eur * rate) 2) else None
       | _ \<Rightarrow> None)" if "i < length data_rows" for i
    using that by (simp add: case_prod_beta split: option.splits)
  have "?column ! i \<noteq> None \<longleftrightarrow>
      (\<exists>eur rate. to_numeric (snd (data_rows ! i)) = Some eur \<and>
         rate_on currency_ratios (fst (data_rows ! i)) currency = Some rate \<and> 0 < rate)"
    if "i < length data_rows" for i
    unfolding cell [OF that] by (auto split: option.splits)
  with res cell show ?thesis
    by (intro exI [of _ ?column]) simp
qed

text \<open>
  Four dates: a price of 100 at the rate 1.25 gives 125; a price that is not numeric, a rate
  of 0 and a date without a rate row each give \<open>None\<close>.
\<close>

lemma project_currency_unique_dates_example:
  "\<exists>column. project_currency eur_rows ratio_rows ''USD'' = column \<and>
     column ! 0 = Some 125 \<and> column ! 1 = None \<and> column ! 2 = None \<and> column ! 3 = None"
proof -
  have dist: "distinct (map fst ratio_rows)"
    by (simp add: ratio_rows_def)
  have len: "length eur_rows = 4"
    by (simp add: eur_rows_def)
  have r: "py_round 125 2 = 125"
    by (simp add: py_round_def round_half_even_def)
  have c0: "(case (to_numeric (snd (eur_rows ! 0)), rate_on ratio_rows (fst (eur_rows ! 0)) ''USD'') of
       (Some eur, Some rate) \<Rightarrow> if 0 < rate then Some (py_round (eur * rate) 2) else None
     | _ \<Rightarrow> None) = Some 125"
    by (simp add: eur_rows_def ratio_rows_def rate_on_def r)
  have c1: "(case (to_numeric (snd (eur_rows ! 1)), rate_on ratio_rows (fst (eur_rows ! 1)) ''USD'') of
       (Some eur, Some rate) \<Rightarrow> if 0 < rate then Some (py_round (eur * rate) 2) else None
     | _ \<Rightarrow> None) = None"
    by (simp add: eur_rows_def ratio_rows_def rate_on_def)
  have c2: "(case (to_numeric (snd (eur_rows ! 2)), rate_on ratio_rows (fst (eur_rows ! 2)) ''USD'') of
       (Some eur, Some rate) \<Rightarrow> if 0 < rate then Some (py_round (eur * rate) 2) else None
     | _ \<Rightarrow> None) = None"
    by (simp add: eur_rows_def ratio_rows_def rate_on_def)
  have c3: "(case (to_numeric (snd (eur_rows ! 3)), rate_on ratio_rows (fst (eur_rows ! 3)) ''USD'') of
       (Some eur, Some rate) \<Rightarrow> if 0 < rate then Some (py_round (eur * rate) 2) else None
     | _ \<Rightarrow> None) = None"
    by (simp add: eur_rows_def ratio_rows_def rate_on_def)
  from project_currency_unique_dates [OF dist, of eur_rows "''USD''"] obtain column where
    res: "project_currency eur_rows ratio_rows ''USD'' = column" and
    cells: "\<forall>i<length eur_rows. column ! i =
      (case (to_numeric (snd (eur_rows ! i)), rate_on ratio_rows (fst (eur_rows ! i)) ''USD'') of
         (Some eur, Some rate) \<Rightarrow> if 0 < rate then Some (py_round (eur * rate) 2) else None
       | _ \<Rightarrow> None)"
    by blast
  from cells len have "column ! 0 = Some 125" "column ! 1 = None" "column ! 2 = None" "column ! 3 = None"
    using c0 c1 c2 c3 by simp_all
  with res show ?thesis by blast
qed

text \<open>
  C6 fails on a rate table that holds a date twice, which nothing between reading the sheet
  (line 749) and the merge (line 796) excludes. The prices are 100 on 3 January 2024 and
  10 on 4 January; \<open>repeated_rates\<close> has the USD rates 1.25 and 2 for 3 January and 3 for
  4 January. The merge yields three rows, (3 January, 100, 1.25), (3 January, 100, 2) and
  (4 January, 10, 3); all are valid, with the values 125, 200 and 30. Line 814 assigns them
  by index label to the two rows of \<open>multi_currency_data\<close>: the cell of 4 January gets 200,
  the value of the second merged row, where the price of 4 January times the rate of
  4 January, rounded, is 30.
\<close>

theorem repeated_rate_date_misaligns_projection:
  "project_currency two_prices repeated_rates ''USD'' = [Some 125, Some 200] \<and>
   to_numeric (snd (two_prices ! 1)) = Some 10 \<and>
   rate_on repeated_rates (fst (two_prices ! 1)) ''USD'' = Some 3 \<and>
   converted_value (Some 10) (Some 3) = Some 30"
  by code_simp

end
